theory Spec2Isabelle
  imports
    Complex_Main
    "HOL-Library.Multiset"
    "HOL-Library.Char_ord"
    "HOL-Library.List_Lexorder"
    "HOL-Library.Option_ord"
    "HOL-Library.Product_Lexorder"
begin

section \<open>Data frames and the library operations the scripts call\<close>

text \<open>
  The scripts are pandas programs.  A data frame is modelled as the list of its rows, a
  missing cell (NaN/None) as \<open>None\<close>.  Monetary values are exact rationals: the rounding of
  binary floating point is outside this model, and every statement about sums below is a
  statement about exact sums.
\<close>

subsection \<open>\<open>DataFrame.groupby(keys, dropna=...)\<close>\<close>

text \<open>
  \<open>groupby\<close> (with its default \<open>sort=True\<close>) yields one group per distinct key, the groups
  ordered by key with missing keys after all present ones, every group holding the values of
  its rows in frame order.  With \<open>dropna=True\<close> rows with a missing key component are left
  out first; with \<open>dropna=False\<close> they are grouped like any other row.
\<close>

definition na_last :: "'a option \<Rightarrow> bool \<times> 'a option" where
  "na_last c = (c = None, c)"

definition groupby ::
  "bool \<Rightarrow> ('k \<Rightarrow> bool) \<Rightarrow> ('k \<Rightarrow> 'o::linorder) \<Rightarrow> ('k \<times> 'v) list \<Rightarrow> ('k \<times> 'v list) list" where
  "groupby dropna has_na rank df =
     (let kept = (if dropna then filter (\<lambda>kv. \<not> has_na (fst kv)) df else df)
      in map (\<lambda>k. (k, map snd (filter (\<lambda>kv. fst kv = k) kept)))
             (sort_key rank (remdups (map fst kept))))"

subsection \<open>\<open>DataFrame.merge(..., how='left')\<close>\<close>

text \<open>
  A left merge keeps the rows of the left frame in their order.  A left row is paired with
  every right row of the same key, in the order of the right frame, and with nothing
  (\<open>None\<close>: all right columns missing) when no right row has its key.
\<close>

definition merge_left :: "('l \<Rightarrow> 'k) \<Rightarrow> ('r \<Rightarrow> 'k) \<Rightarrow> 'l list \<Rightarrow> 'r list \<Rightarrow> ('l \<times> 'r option) list" where
  "merge_left lkey rkey left right =
     concat (map (\<lambda>l. case filter (\<lambda>r. rkey r = lkey l) right of
                          [] \<Rightarrow> [(l, None)]
                        | m # ms \<Rightarrow> map (\<lambda>r. (l, Some r)) (m # ms)) left)"

subsection \<open>\<open>read_csv(..., chunksize=n)\<close>\<close>

text \<open>\<open>read_csv(..., chunksize=n)\<close>: consecutive chunks of \<open>n\<close> rows, the last one shorter.\<close>

function chunks :: "nat \<Rightarrow> 'a list \<Rightarrow> 'a list list" where
  "chunks n xs = (if n = 0 \<or> xs = [] then [] else take n xs # chunks n (drop n xs))"
  by pat_completeness auto
termination
  by (relation "measure (\<lambda>(n, xs). length xs)") auto

declare chunks.simps [simp del]

section \<open>Aggregator: \<open>05_agregar_despesas.py\<close>\<close>

text \<open>
  A row of \<open>dados_validados.csv\<close> as \<open>read_csv\<close> delivers it.  A column absent from the file
  is added by lines 53--55 with \<open>None\<close> in every row, so it reads as \<open>None\<close> here.
  \<open>ValorDespesas\<close> holds the outcome of \<open>pd.to_numeric(..., errors='coerce')\<close>: \<open>None\<close> for a
  missing or unparseable cell.
\<close>

record row =
  RazaoSocial :: "string option"
  UF :: "string option"
  Ano :: "int option"
  Trimestre :: "int option"
  ValorDespesas :: "rat option"

type_synonym key4 = "string option \<times> string option \<times> int option \<times> int option"
type_synonym key2 = "string option \<times> string option"

definition key4_of :: "row \<Rightarrow> key4" where
  "key4_of r = (RazaoSocial r, UF r, Ano r, Trimestre r)"

definition has_na4 :: "key4 \<Rightarrow> bool" where
  "has_na4 k = (case k of (a, b, c, d) \<Rightarrow> a = None \<or> b = None \<or> c = None \<or> d = None)"

definition rank4 ::
  "key4 \<Rightarrow> (bool \<times> string option) \<times> (bool \<times> string option) \<times> (bool \<times> int option) \<times> (bool \<times> int option)" where
  "rank4 k = (case k of (a, b, c, d) \<Rightarrow> (na_last a, na_last b, na_last c, na_last d))"

definition has_na2 :: "key2 \<Rightarrow> bool" where
  "has_na2 k = (case k of (a, b) \<Rightarrow> a = None \<or> b = None)"

definition rank2 :: "key2 \<Rightarrow> (bool \<times> string option) \<times> (bool \<times> string option)" where
  "rank2 k = (case k of (a, b) \<Rightarrow> (na_last a, na_last b))"

text \<open>\<open>.fillna(0)\<close> on line 57.\<close>

definition fillna0 :: "rat option \<Rightarrow> rat" where
  "fillna0 v = (case v of None \<Rightarrow> 0 | Some x \<Rightarrow> x)"

text \<open>
  \<open>groupby([...4 keys...], dropna=False)['ValorDespesas'].sum().reset_index()\<close>,
  used on lines 59--63 for a chunk and on lines 73--77 for the concatenated partial sums.
\<close>

definition groupby_sum4 :: "(key4 \<times> rat) list \<Rightarrow> (key4 \<times> rat) list" where
  "groupby_sum4 df = map (\<lambda>g. (fst g, sum_list (snd g))) (groupby False has_na4 rank4 df)"

text \<open>The body of the loop over the chunks, lines 51--64.\<close>

definition chunk_agg :: "row list \<Rightarrow> (key4 \<times> rat) list" where
  "chunk_agg chunk = groupby_sum4 (map (\<lambda>r. (key4_of r, fillna0 (ValorDespesas r))) chunk)"

text \<open>Lines 71--77: concatenate the partial sums and sum them again by the same key.\<close>

definition reaggregate :: "(key4 \<times> rat) list list \<Rightarrow> (key4 \<times> rat) list" where
  "reaggregate quarter_parts = groupby_sum4 (concat quarter_parts)"

definition agregar_trimestres :: "nat \<Rightarrow> row list \<Rightarrow> (key4 \<times> rat) list" where
  "agregar_trimestres chunksize df = reaggregate (map chunk_agg (chunks chunksize df))"

text \<open>
  The reference the chunked computation is compared with, in the words of the
  specification: the total of a group is the sum of its \<open>ValorDespesas\<close> over the full
  dataset.
\<close>

definition group_total :: "row list \<Rightarrow> key4 \<Rightarrow> rat" where
  "group_total df k = sum_list (map (\<lambda>r. fillna0 (ValorDespesas r)) (filter (\<lambda>r. key4_of r = k) df))"


text \<open>
  Lines 80--84: \<open>groupby(['RazaoSocial', 'UF'], dropna=False)['ValorDespesas'].agg(sum, mean,
  std, count)\<close>.  \<open>std\<close> is the sample standard deviation (one delta degree of freedom),
  which is NaN for fewer than two values; \<open>count\<close> counts the values of the group, none of
  which is missing after line 57.  A defined standard deviation is kept exactly, as the
  square root \<open>Sqrt v\<close> of the rational sample variance \<open>v\<close>.
\<close>

datatype stddev = NaN | Sqrt rat

record stat_row =
  s_RazaoSocial :: "string option"
  s_UF :: "string option"
  TotalDespesas :: rat
  MediaPorTrimestre :: rat
  DesvioPadraoPorTrimestre :: stddev
  NumTrimestres :: nat

definition std_ddof1 :: "rat list \<Rightarrow> stddev" where
  "std_ddof1 vs =
     (let n = length vs
      in if n \<le> 1 then NaN
         else let m = sum_list vs / of_nat n
              in Sqrt (sum_list (map (\<lambda>v. (v - m) ^ 2) vs) / of_nat (n - 1)))"

definition key2_of :: "key4 \<Rightarrow> key2" where
  "key2_of k = (case k of (a, b, c, d) \<Rightarrow> (a, b))"

definition agg_row :: "key2 \<times> rat list \<Rightarrow> stat_row" where
  "agg_row g =
     \<lparr> s_RazaoSocial = fst (fst g), s_UF = snd (fst g),
       TotalDespesas = sum_list (snd g),
       MediaPorTrimestre = sum_list (snd g) / of_nat (length (snd g)),
       DesvioPadraoPorTrimestre = std_ddof1 (snd g),
       NumTrimestres = length (snd g) \<rparr>"

definition agregar_stats :: "(key4 \<times> rat) list \<Rightarrow> stat_row list" where
  "agregar_stats quarters =
     map agg_row (groupby False has_na2 rank2 (map (\<lambda>q. (key2_of (fst q), snd q)) quarters))"

text \<open>
  Line 87, \<open>stats.sort_values('TotalDespesas', ascending=False)\<close>, passes no \<open>kind\<close>, so
  pandas sorts with its default, \<open>quicksort\<close>; the library documents only \<open>mergesort\<close> and
  \<open>stable\<close> as stable.  The sorting routine is therefore a parameter of the model, and
  \<open>sorts_desc\<close> is what every kind guarantees of it on a frame: the rows are rearranged so
  that the totals do not increase.
\<close>

definition sorts_desc :: "(stat_row list \<Rightarrow> stat_row list) \<Rightarrow> stat_row list \<Rightarrow> bool" where
  "sorts_desc sort_values stats \<longleftrightarrow>
     mset (sort_values stats) = mset stats \<and>
     sorted_wrt (\<lambda>a b. TotalDespesas b \<le> TotalDespesas a) (sort_values stats)"

text \<open>
  Two routines that meet it.  The first is what pandas computes when the kind is stable
  (reverse the frame, sort ascending and stably, reverse again): equal totals keep their
  frame order.  The second sorts ascending and reverses: equal totals end up in the
  opposite order.
\<close>

definition sort_values_stable :: "stat_row list \<Rightarrow> stat_row list" where
  "sort_values_stable stats = rev (sort_key TotalDespesas (rev stats))"


text \<open>
  \<open>executar_agregacao\<close>, lines 35--94.  The input file may be absent (\<open>None\<close>); a chunk size
  of zero makes \<open>read_csv\<close> raise, which the \<open>except\<close> on line 93 reports; no chunk at all
  ends the run on line 69; otherwise the sorted statistics are saved.
\<close>

datatype outcome = Saved "stat_row list" | MissingInput | NoData | Failed

definition executar_agregacao ::
  "(stat_row list \<Rightarrow> stat_row list) \<Rightarrow> nat \<Rightarrow> row list option \<Rightarrow> outcome" where
  "executar_agregacao sort_values chunksize input =
     (case input of
        None \<Rightarrow> MissingInput
      | Some df \<Rightarrow>
          if chunksize = 0 then Failed
          else let quarter_parts = map chunk_agg (chunks chunksize df)
               in if quarter_parts = [] then NoData
                  else Saved (sort_values (agregar_stats (reaggregate quarter_parts))))"

text \<open>The sum of the values stored under one key of a keyed frame.\<close>

definition key_sum :: "('k \<times> rat) list \<Rightarrow> 'k \<Rightarrow> rat" where
  "key_sum df k = sum_list (map snd (filter (\<lambda>kv. fst kv = k) df))"

text \<open>The periods, \<open>(Ano, Trimestre)\<close>, in which an entity of a region has rows.\<close>

definition periods_of :: "row list \<Rightarrow> key2 \<Rightarrow> (int option \<times> int option) set" where
  "periods_of df g = set (map (\<lambda>r. (Ano r, Trimestre r)) (filter (\<lambda>r. (RazaoSocial r, UF r) = g) df))"

text \<open>The group keys of the period-level frame, in the frame's order.\<close>

definition ks4 :: "row list \<Rightarrow> key4 list" where
  "ks4 df = sort_key rank4 (remdups (map key4_of df))"

text \<open>A row for the examples.\<close>

definition mk_row :: "string option \<Rightarrow> string option \<Rightarrow> int option \<Rightarrow> int option \<Rightarrow> rat option \<Rightarrow> row" where
  "mk_row n u a t v = \<lparr> RazaoSocial = n, UF = u, Ano = a, Trimestre = t, ValorDespesas = v \<rparr>"




text \<open>An entity with two periods and an entity with one.\<close>

definition ex_periods :: "row list" where
  "ex_periods =
     [mk_row (Some ''A'') (Some ''SP'') (Some 2025) (Some 1) (Some 10),
      mk_row (Some ''A'') (Some ''SP'') (Some 2025) (Some 2) (Some 30),
      mk_row (Some ''B'') (Some ''RJ'') (Some 2025) (Some 1) (Some 5)]"

text \<open>Rows with missing keys, one of them with a missing value as well.\<close>

definition ex_null :: "row list" where
  "ex_null =
     [mk_row None None None None (Some 7),
      mk_row (Some ''A'') None (Some 2025) (Some 1) None,
      mk_row (Some ''A'') (Some ''SP'') (Some 2025) None (Some 2),
      mk_row (Some ''A'') (Some ''SP'') (Some 2025) (Some 1) (Some 1)]"

section \<open>ArchiveWalker: \<open>02_processar_arquivos.py\<close>\<close>

subsection \<open>Year and quarter from the name of an archive\<close>

text \<open>
  Names are strings of ASCII characters.  \<open>re.search\<close> tries the pattern at every position
  from the left, the end of the string included, and returns the first match.  A pattern is
  modelled by the function that matches it at the head of a string and returns its groups.
\<close>

definition is_digit :: "char \<Rightarrow> bool" where
  "is_digit c \<longleftrightarrow> c \<in> set ''0123456789''"

definition is_quarter :: "char \<Rightarrow> bool" where
  "is_quarter c \<longleftrightarrow> c \<in> set ''1234''"

fun re_search :: "(string \<Rightarrow> 'a option) \<Rightarrow> string \<Rightarrow> 'a option" where
  "re_search m [] = m []"
| "re_search m (c # cs) = (case m (c # cs) of Some g \<Rightarrow> Some g | None \<Rightarrow> re_search m cs)"

text \<open>\<open>([1-4])T(\d{4})\<close> with \<open>re.IGNORECASE\<close>, line 41.\<close>

fun match_quarter_T_year :: "string \<Rightarrow> (string \<times> string) option" where
  "match_quarter_T_year (q # t # y1 # y2 # y3 # y4 # rest) =
     (if is_quarter q \<and> (t = CHR ''T'' \<or> t = CHR ''t'')
         \<and> is_digit y1 \<and> is_digit y2 \<and> is_digit y3 \<and> is_digit y4
      then Some ([q], [y1, y2, y3, y4]) else None)"
| "match_quarter_T_year _ = None"

text \<open>
  \<open>(\d{4})[^0-9]{0,3}([1-4])(?:[_\- ]|$)\<close>, line 44.  \<open>$\<close> matches at the end of the string
  and before a newline that ends it.  The bounded repetition is greedy: one more non-digit
  is consumed first, and given back when the rest does not match.
\<close>

fun match_quarter_end :: "string \<Rightarrow> string option" where
  "match_quarter_end [] = None"
| "match_quarter_end (q # rest) =
     (if is_quarter q
         \<and> (case rest of
               [] \<Rightarrow> True
             | c # cs \<Rightarrow> c \<in> set ''_- '' \<or> (c = CHR 0x0A \<and> cs = []))
      then Some [q] else None)"

fun match_gap :: "nat \<Rightarrow> string \<Rightarrow> string option" where
  "match_gap 0 s = match_quarter_end s"
| "match_gap (Suc k) [] = match_quarter_end []"
| "match_gap (Suc k) (c # cs) =
     (if is_digit c then match_quarter_end (c # cs)
      else (case match_gap k cs of
              Some q \<Rightarrow> Some q
            | None \<Rightarrow> match_quarter_end (c # cs)))"

fun match_year_sep_quarter :: "string \<Rightarrow> (string \<times> string) option" where
  "match_year_sep_quarter (y1 # y2 # y3 # y4 # rest) =
     (if is_digit y1 \<and> is_digit y2 \<and> is_digit y3 \<and> is_digit y4
      then (case match_gap 3 rest of Some q \<Rightarrow> Some ([y1, y2, y3, y4], q) | None \<Rightarrow> None)
      else None)"
| "match_year_sep_quarter _ = None"

text \<open>\<open>(\d{6})\<close>, line 47.\<close>

fun match_six_digits :: "string \<Rightarrow> string option" where
  "match_six_digits (d1 # d2 # d3 # d4 # d5 # d6 # rest) =
     (if is_digit d1 \<and> is_digit d2 \<and> is_digit d3 \<and> is_digit d4 \<and> is_digit d5 \<and> is_digit d6
      then Some [d1, d2, d3, d4, d5, d6] else None)"
| "match_six_digits _ = None"

text \<open>\<open>int(...)\<close> of a string of decimal digits, and \<open>str(...)\<close> of an integer.\<close>

definition int_of_digits :: "string \<Rightarrow> int" where
  "int_of_digits ds = foldl (\<lambda>n c. 10 * n + (of_char c - 48)) 0 ds"

fun str_nat :: "nat \<Rightarrow> string" where
  "str_nat n = (if n < 10 then [char_of (48 + n)] else str_nat (n div 10) @ [char_of (48 + n mod 10)])"

declare str_nat.simps [simp del]

definition str_int :: "int \<Rightarrow> string" where
  "str_int i = (if i < 0 then CHR ''-'' # str_nat (nat (- i)) else str_nat (nat i))"

text \<open>\<open>_extract_year_quarter_from_name\<close>, lines 39--52.\<close>

definition extract_year_quarter_from_name :: "string \<Rightarrow> (int \<times> int) option" where
  "extract_year_quarter_from_name name =
     (case re_search match_quarter_T_year name of
        Some (g1, g2) \<Rightarrow> Some (int_of_digits g2, int_of_digits g1)
      | None \<Rightarrow>
         (case re_search match_year_sep_quarter name of
            Some (g1, g2) \<Rightarrow> Some (int_of_digits g1, int_of_digits g2)
          | None \<Rightarrow>
             (case re_search match_six_digits name of
                Some g1 \<Rightarrow>
                  (let y = int_of_digits (take 4 g1); mon = int_of_digits (drop 4 g1)
                   in if 1 \<le> mon \<and> mon \<le> 12 then Some (y, (mon - 1) div 3 + 1) else None)
              | None \<Rightarrow> None)))"

text \<open>Lines 162--164: the year and the quarter attached to every record of the archive.\<close>

definition ano_trimestre :: "string \<Rightarrow> string \<times> string" where
  "ano_trimestre name =
     (case extract_year_quarter_from_name name of
        Some (y, q) \<Rightarrow> (str_int y, str_int q)
      | None \<Rightarrow> (''N/A'', ''N/A''))"

subsection \<open>TableReader\<close>

text \<open>
  A table read with \<open>dtype=str\<close>: the column names and the rows of cells.  A file is the
  last component of its path, the directory it lies in, and its bytes.
\<close>

record dataframe =
  columns :: "string list"
  cells :: "string option list list"

record path =
  p_dir :: string
  p_name :: string
  p_content :: string

datatype encoding = utf_8 | latin_1 | cp1252

text \<open>
  \<open>Path.suffix\<close>: the part of the name from its last dot on, unless that dot begins or ends
  the name; \<open>str.lower\<close> on ASCII letters.
\<close>

definition suffix :: "string \<Rightarrow> string" where
  "suffix nm =
     (let after = rev (takeWhile (\<lambda>c. c \<noteq> CHR ''.'') (rev nm))
      in if CHR ''.'' \<notin> set nm then []
         else if length after + 1 < length nm \<and> after \<noteq> [] then CHR ''.'' # after
         else [])"

definition lower_char :: "char \<Rightarrow> char" where
  "lower_char c = (if CHR ''A'' \<le> c \<and> c \<le> CHR ''Z'' then char_of (of_char c + (32::nat)) else c)"

definition lower :: "string \<Rightarrow> string" where
  "lower s = map lower_char s"

text \<open>
  \<open>_try_read_table\<close>, lines 55--76.  The readers of the library are parameters:
  \<open>read_excel p\<close> and \<open>read_csv p sep enc\<close> yield a table, or \<open>None\<close> when they raise.  The two
  loops return from inside at the first table with more than one column; a table with one
  column and an exception both go on to the next separator.
\<close>

definition encodings :: "encoding list" where
  "encodings = [utf_8, latin_1, cp1252]"

definition seps :: "char list" where
  "seps = [CHR '';'', CHR '','', CHR 0x09, CHR ''|'']"

fun try_seps ::
  "(path \<Rightarrow> char \<Rightarrow> encoding \<Rightarrow> dataframe option) \<Rightarrow> path \<Rightarrow> encoding \<Rightarrow> char list \<Rightarrow> dataframe option" where
  "try_seps read_csv p enc [] = None"
| "try_seps read_csv p enc (sep # rest) =
     (case read_csv p sep enc of
        Some df \<Rightarrow> if 1 < length (columns df) then Some df else try_seps read_csv p enc rest
      | None \<Rightarrow> try_seps read_csv p enc rest)"

fun try_encodings ::
  "(path \<Rightarrow> char \<Rightarrow> encoding \<Rightarrow> dataframe option) \<Rightarrow> path \<Rightarrow> encoding list \<Rightarrow> dataframe option" where
  "try_encodings read_csv p [] = None"
| "try_encodings read_csv p (enc # rest) =
     (case try_seps read_csv p enc seps of
        Some df \<Rightarrow> Some df
      | None \<Rightarrow> try_encodings read_csv p rest)"

definition try_read_table ::
  "(path \<Rightarrow> dataframe option) \<Rightarrow> (path \<Rightarrow> char \<Rightarrow> encoding \<Rightarrow> dataframe option) \<Rightarrow> path \<Rightarrow> dataframe option" where
  "try_read_table read_excel read_csv p =
     (if lower (suffix (p_name p)) \<in> {''.xls'', ''.xlsx''} then read_excel p
      else try_encodings read_csv p encodings)"

text \<open>
  The search in the words of the specification: the pairs of an encoding and a delimiter in
  their priority order, and the parse of the first pair that parses and yields more than one
  column.
\<close>

definition attempts :: "(encoding \<times> char) list" where
  "attempts = List.product encodings seps"

definition multicolumn :: "dataframe option \<Rightarrow> bool" where
  "multicolumn r = (case r of None \<Rightarrow> False | Some df \<Rightarrow> 1 < length (columns df))"

definition first_multicolumn ::
  "(path \<Rightarrow> char \<Rightarrow> encoding \<Rightarrow> dataframe option) \<Rightarrow> path \<Rightarrow> dataframe option" where
  "first_multicolumn read_csv p =
     (case find (\<lambda>a. multicolumn (read_csv p (snd a) (fst a))) attempts of
        None \<Rightarrow> None
      | Some a \<Rightarrow> read_csv p (snd a) (fst a))"

text \<open>
  What the library's reader returns on rectangular ASCII text without quotes, under every
  one of the three encodings: the non-empty lines are split at the separator, the first
  line names the columns, an empty field is a missing cell.  A file without lines makes the
  reader raise.
\<close>

fun split_at :: "char \<Rightarrow> string \<Rightarrow> string list" where
  "split_at sep [] = [[]]"
| "split_at sep (c # cs) =
     (case split_at sep cs of
        [] \<Rightarrow> (if c = sep then [[], []] else [[c]])
      | w # ws \<Rightarrow> (if c = sep then [] # w # ws else (c # w) # ws))"

definition read_csv_plain :: "path \<Rightarrow> char \<Rightarrow> encoding \<Rightarrow> dataframe option" where
  "read_csv_plain p sep enc =
     (case filter (\<lambda>l. l \<noteq> []) (split_at (CHR 0x0A) (p_content p)) of
        [] \<Rightarrow> None
      | header # lines \<Rightarrow>
          Some \<lparr> columns = split_at sep header,
                 cells = map (\<lambda>l. map (\<lambda>f. if f = [] then None else Some f) (split_at sep l)) lines \<rparr>)"

definition ex_semicolon :: path where
  "ex_semicolon = \<lparr> p_dir = [], p_name = ''dados.csv'',
      p_content = ''A;B'' @ [CHR 0x0A] @ ''1;2'' @ [CHR 0x0A] \<rparr>"

definition ex_tab :: path where
  "ex_tab = \<lparr> p_dir = [], p_name = ''dados.txt'',
      p_content = ''A'' @ [CHR 0x09] @ ''B'' @ [CHR 0x0A] @ ''1'' @ [CHR 0x09] @ ''2'' @ [CHR 0x0A] \<rparr>"

subsection \<open>The walk over the archives\<close>

text \<open>
  A record of the consolidated file, and a line of that file: the header or a record.  Its
  bytes are determined by its lines.
\<close>

record registro =
  k_RegistroANS :: "string option"
  k_Trimestre :: string
  k_Ano :: string
  k_ValorDespesas :: rat

datatype csv_line = Header | Line registro

text \<open>
  What a run takes from outside: the readers of the library, the table classifier
  \<open>_is_expense_table\<close> (lines 79--92) and the field mapper \<open>_normalize_and_extract\<close>
  (lines 95--139), both functions of a table, and whether \<open>to_csv\<close> can append a frame; when
  it cannot, nothing is appended and line 201 catches the exception.
\<close>

record env =
  e_read_excel :: "path \<Rightarrow> dataframe option"
  e_read_csv :: "path \<Rightarrow> char \<Rightarrow> encoding \<Rightarrow> dataframe option"
  e_is_expense_table :: "dataframe \<Rightarrow> bool"
  e_normalize_and_extract :: "dataframe \<Rightarrow> string \<Rightarrow> string \<Rightarrow> registro list option"
  e_can_write :: "registro list \<Rightarrow> bool"

text \<open>
  An archive of \<open>data/raw\<close>: its name and the files \<open>os.walk\<close> finds after extraction, in the
  order of the walk; \<open>None\<close> when the extraction raises (lines 167--172).
\<close>

record archive =
  zip_name :: string
  zip_files :: "path list option"

text \<open>\<open>sub in s\<close> for strings.\<close>

fun contains :: "string \<Rightarrow> string \<Rightarrow> bool" where
  "contains sub [] = (sub = [])"
| "contains sub (c # cs) = (take (length sub) (c # cs) = sub \<or> contains sub cs)"

text \<open>
  The state of the loop: the flag \<open>primeira_escrita\<close> and the consolidated file, \<open>None\<close>
  while it does not exist.  \<open>to_csv(CSV_FINAL, mode='a', header=...)\<close> creates the file when
  it is missing and appends the header, if asked, and the records.
\<close>

record walker_state =
  primeira_escrita :: bool
  csv_final :: "csv_line list option"

definition to_csv_append :: "registro list \<Rightarrow> bool \<Rightarrow> csv_line list option \<Rightarrow> csv_line list option" where
  "to_csv_append dfn header old =
     Some ((case old of None \<Rightarrow> [] | Some ls \<Rightarrow> ls) @ (if header then [Header] else []) @ map Line dfn)"

text \<open>The body of the loop over the extracted files, lines 176--202.\<close>

definition process_file :: "env \<Rightarrow> string \<Rightarrow> string \<Rightarrow> walker_state \<Rightarrow> path \<Rightarrow> walker_state" where
  "process_file e ano trimestre st p =
     (if contains ''__MACOSX'' (p_dir p @ ''/'' @ p_name p) then st
      else case try_read_table (e_read_excel e) (e_read_csv e) p of
             None \<Rightarrow> st
           | Some df \<Rightarrow>
               if \<not> e_is_expense_table e df then st
               else case e_normalize_and_extract e df ano trimestre of
                      None \<Rightarrow> st
                    | Some dfn \<Rightarrow>
                        if e_can_write e dfn
                        then \<lparr> primeira_escrita = False,
                               csv_final = to_csv_append dfn (primeira_escrita st) (csv_final st) \<rparr>
                        else st)"

text \<open>The body of the loop over the archives, lines 160--202.\<close>

definition process_zip :: "env \<Rightarrow> walker_state \<Rightarrow> archive \<Rightarrow> walker_state" where
  "process_zip e st z =
     (let ano = fst (ano_trimestre (zip_name z)); trimestre = snd (ano_trimestre (zip_name z))
      in case zip_files z of
           None \<Rightarrow> st
         | Some files \<Rightarrow> foldl (process_file e ano trimestre) st files)"

text \<open>
  \<open>processar_arquivos\<close>, lines 142--207: from the archives as \<open>glob\<close> lists them and the
  consolidated file as the last run left it to the consolidated file after the run.  The
  archives are sorted by name; without any archive the function returns on line 152 and
  the file stays as it is; otherwise the file is removed (lines 155--156) and written anew.
\<close>

definition processar_arquivos :: "env \<Rightarrow> archive list \<Rightarrow> csv_line list option \<Rightarrow> csv_line list option" where
  "processar_arquivos e listing prior =
     (let arquivos_zip = sort_key zip_name listing
      in if arquivos_zip = [] then prior
         else csv_final (foldl (process_zip e) \<lparr> primeira_escrita = True, csv_final = None \<rparr> arquivos_zip))"

text \<open>What the loop maintains: no file before the first append, one header on top after it.\<close>

definition header_once :: "walker_state \<Rightarrow> bool" where
  "header_once st \<longleftrightarrow>
     (case csv_final st of
        None \<Rightarrow> primeira_escrita st
      | Some ls \<Rightarrow> \<not> primeira_escrita st \<and> ls \<noteq> [] \<and> hd ls = Header \<and> Header \<notin> set (tl ls))"

text \<open>
  An environment for the examples: text files read as plain text, every table accepted, a
  record made of the first two cells of every row.  And two archives of one file each.
\<close>

definition ex_normalize :: "dataframe \<Rightarrow> string \<Rightarrow> string \<Rightarrow> registro list option" where
  "ex_normalize df ano trimestre =
     (if cells df = [] then None
      else Some (map (\<lambda>r. \<lparr> k_RegistroANS = (case r of [] \<Rightarrow> None | a # _ \<Rightarrow> a),
                             k_Trimestre = trimestre, k_Ano = ano,
                             k_ValorDespesas = (case r of _ # Some v # _ \<Rightarrow> of_int (int_of_digits v) | _ \<Rightarrow> 0) \<rparr>)
                     (cells df)))"

definition ex_env :: env where
  "ex_env = \<lparr> e_read_excel = (\<lambda>p. None), e_read_csv = read_csv_plain,
               e_is_expense_table = (\<lambda>df. True), e_normalize_and_extract = ex_normalize,
               e_can_write = (\<lambda>dfn. True) \<rparr>"

definition ex_zip_1T :: archive where
  "ex_zip_1T = \<lparr> zip_name = ''1T2025.zip'',
      zip_files = Some [\<lparr> p_dir = [], p_name = ''a.csv'',
        p_content = ''REG_ANS;VALOR'' @ [CHR 0x0A] @ ''111;10'' @ [CHR 0x0A] \<rparr>] \<rparr>"

definition ex_zip_2T :: archive where
  "ex_zip_2T = \<lparr> zip_name = ''2T2025.zip'',
      zip_files = Some [\<lparr> p_dir = [], p_name = ''b.csv'',
        p_content = ''REG_ANS;VALOR'' @ [CHR 0x0A] @ ''222;20'' @ [CHR 0x0A] \<rparr>] \<rparr>"

section \<open>Validator: \<open>03_validar_dados.py\<close>\<close>

text \<open>
  A row of \<open>consolidado_despesas.csv\<close>: \<open>RegistroANS\<close> in the form \<open>astype(str)\<close> gives it,
  \<open>ValorDespesas\<close> as \<open>pd.to_numeric(..., errors='coerce')\<close> leaves it (\<open>None\<close> for a missing or
  unparseable cell).
\<close>

record despesa =
  c_RegistroANS :: string
  c_Trimestre :: "string option"
  c_Ano :: "string option"
  c_ValorDespesas :: "rat option"

text \<open>
  \<open>validar_cnpj\<close>, lines 29--34.  \<open>str\<close> of a missing cell is \<open>nan\<close>; \<open>replace(c, "")\<close> removes
  every occurrence of the character.
\<close>

definition py_str :: "string option \<Rightarrow> string" where
  "py_str c = (case c of None \<Rightarrow> ''nan'' | Some s \<Rightarrow> s)"

definition remove_char :: "char \<Rightarrow> string \<Rightarrow> string" where
  "remove_char c s = filter (\<lambda>x. x \<noteq> c) s"

definition validar_cnpj :: "string option \<Rightarrow> bool" where
  "validar_cnpj cnpj =
     (let cnpj = remove_char CHR ''-'' (remove_char CHR ''/'' (remove_char CHR ''.'' (py_str cnpj)))
      in length cnpj = 14)"


text \<open>
  The optional mapping \<open>data/raw/registro_ans_info.csv\<close>, lines 51--69: the file may be
  absent; reading or merging it may raise (a column \<open>CNPJ\<close> or \<open>RazaoSocial\<close> is missing), which
  line 62 catches; it may lack the column \<open>RegistroANS\<close>; or it is merged.
\<close>

record map_row =
  m_RegistroANS :: string
  m_CNPJ :: "string option"
  m_RazaoSocial :: "string option"

datatype mapping_file = Absent | Broken | NoRegistroANS | Mapping "map_row list"

text \<open>
  The frame after line 69: each row with its \<open>CNPJ\<close> and \<open>RazaoSocial\<close> cells, or with \<open>None\<close>
  where the frame has no such columns.
\<close>

definition enrich ::
  "mapping_file \<Rightarrow> despesa list \<Rightarrow> (despesa \<times> (string option \<times> string option) option) list" where
  "enrich m df =
     (case m of
        Mapping rows \<Rightarrow>
          map (\<lambda>lr. (fst lr,
                 Some (case snd lr of
                         None \<Rightarrow> (None, None)
                       | Some mr \<Rightarrow> (m_CNPJ mr, m_RazaoSocial mr))))
              (merge_left c_RegistroANS m_RegistroANS df rows)
      | Absent \<Rightarrow> map (\<lambda>d. (d, Some (Some [], Some []))) df
      | Broken \<Rightarrow> map (\<lambda>d. (d, None)) df
      | NoRegistroANS \<Rightarrow> map (\<lambda>d. (d, None)) df)"

record v_row =
  v_RegistroANS :: string
  v_CNPJ :: "string option"
  v_RazaoSocial :: "string option"
  v_Trimestre :: "string option"
  v_Ano :: "string option"
  v_ValorDespesas :: "rat option"
  CNPJ_Valido :: bool

text \<open>
  Lines 83--87 set the flag; lines 104--106 fill \<open>CNPJ\<close> and \<open>RazaoSocial\<close> with the empty
  string where the frame has no such columns.
\<close>

definition flag_row :: "despesa \<times> (string option \<times> string option) option \<Rightarrow> v_row" where
  "flag_row dr =
     \<lparr> v_RegistroANS = c_RegistroANS (fst dr),
       v_CNPJ = (case snd dr of None \<Rightarrow> Some [] | Some cr \<Rightarrow> fst cr),
       v_RazaoSocial = (case snd dr of None \<Rightarrow> Some [] | Some cr \<Rightarrow> snd cr),
       v_Trimestre = c_Trimestre (fst dr),
       v_Ano = c_Ano (fst dr),
       v_ValorDespesas = c_ValorDespesas (fst dr),
       CNPJ_Valido = (case snd dr of None \<Rightarrow> False | Some cr \<Rightarrow> validar_cnpj (fst cr)) \<rparr>"

text \<open>Line 97, \<open>df['ValorDespesas'] > 0\<close>: a missing value compares false.\<close>

definition positive :: "rat option \<Rightarrow> bool" where
  "positive v = (case v of None \<Rightarrow> False | Some x \<Rightarrow> 0 < x)"

record out_row =
  o_CNPJ :: "string option"
  o_RazaoSocial :: "string option"
  o_Trimestre :: "string option"
  o_Ano :: "string option"
  o_ValorDespesas :: "rat option"

definition project :: "v_row \<Rightarrow> out_row" where
  "project r =
     \<lparr> o_CNPJ = v_CNPJ r, o_RazaoSocial = v_RazaoSocial r, o_Trimestre = v_Trimestre r,
       o_Ano = v_Ano r, o_ValorDespesas = v_ValorDespesas r \<rparr>"

text \<open>
  \<open>executar_validacao\<close>, lines 36--115.  The run is abandoned when the input cannot be read
  (lines 39--46) or has no column \<open>ValorDespesas\<close> (lines 90--92).  Otherwise it yields the
  filtered frame \<open>df_limpo\<close>, which carries the flag, and the five columns written to
  \<open>dados_validados.csv\<close>.
\<close>

datatype consolidado = InputUnreadable | NoValorDespesas | Consolidado "despesa list"

datatype validacao = Aborted | Validated "v_row list" "out_row list"

definition executar_validacao :: "mapping_file \<Rightarrow> consolidado \<Rightarrow> validacao" where
  "executar_validacao m input =
     (case input of
        InputUnreadable \<Rightarrow> Aborted
      | NoValorDespesas \<Rightarrow> Aborted
      | Consolidado df \<Rightarrow>
          (let flagged = map flag_row (enrich m df);
               df_limpo = filter (\<lambda>r. positive (v_ValorDespesas r)) flagged
           in Validated df_limpo (map project df_limpo)))"

text \<open>The consolidated row a validated row was made from.\<close>

definition despesa_of :: "v_row \<Rightarrow> despesa" where
  "despesa_of r =
     \<lparr> c_RegistroANS = v_RegistroANS r, c_Trimestre = v_Trimestre r, c_Ano = v_Ano r,
       c_ValorDespesas = v_ValorDespesas r \<rparr>"

text \<open>Three rows with the values \<open>-5\<close>, \<open>0\<close> and \<open>0.01\<close>, and a mapping with a malformed CNPJ.\<close>

definition ex_values :: "despesa list" where
  "ex_values =
     [\<lparr> c_RegistroANS = ''111'', c_Trimestre = Some ''1'', c_Ano = Some ''2025'', c_ValorDespesas = Some (- 5) \<rparr>,
      \<lparr> c_RegistroANS = ''222'', c_Trimestre = Some ''1'', c_Ano = Some ''2025'', c_ValorDespesas = Some 0 \<rparr>,
      \<lparr> c_RegistroANS = ''333'', c_Trimestre = Some ''1'', c_Ano = Some ''2025'', c_ValorDespesas = Some (1 / 100) \<rparr>]"

definition ex_mapping :: "map_row list" where
  "ex_mapping =
     [\<lparr> m_RegistroANS = ''333'', m_CNPJ = Some ''123'', m_RazaoSocial = None \<rparr>]"

section \<open>Enricher: \<open>04_enriquecer_dados.py\<close>\<close>




















section \<open>Properties\<close>

subsection \<open>The group-by model\<close>

lemma inj_na_last: "inj na_last"
  by (auto simp: inj_on_def na_last_def)

lemma inj_rank4: "inj rank4"
  by (auto simp: inj_on_def rank4_def na_last_def split: prod.splits)

lemma inj_rank2: "inj rank2"
  by (auto simp: inj_on_def rank2_def na_last_def split: prod.splits)

lemma groupby_dropna:
  "groupby True has_na rank df = groupby False has_na rank (filter (\<lambda>kv. \<not> has_na (fst kv)) df)"
  by (simp add: groupby_def)

lemma groupby_keys:
  "map fst (groupby False h r df) = sort_key r (remdups (map fst df))"
  by (simp add: groupby_def comp_def)

lemma sort_key_remdups_cong:
  fixes r :: "'k \<Rightarrow> 'o::linorder"
  assumes "inj r" and "set xs = set ys"
  shows "sort_key r (remdups xs) = sort_key r (remdups ys)"
proof -
  let ?a = "sort_key r (remdups xs)" and ?b = "sort_key r (remdups ys)"
  have d: "distinct (map r ?a)" "distinct (map r ?b)"
    using assms(1) by (simp_all add: distinct_map inj_on_def inj_def)
  have s: "sorted (map r ?a)" "sorted (map r ?b)" by simp_all
  have "set (map r ?a) = set (map r ?b)" using assms(2) by simp
  with d s have "map r ?a = map r ?b" by (metis sorted_distinct_set_unique)
  then show ?thesis using assms(1) by (simp add: inj_map_eq_map)
qed

lemma key_sum_tabulate:
  "distinct ks \<Longrightarrow> key_sum (map (\<lambda>k'. (k', f k')) ks) k = (if k \<in> set ks then f k else 0)"
  by (induction ks) (auto simp: key_sum_def)

lemma key_sum_absent: "k \<notin> fst ` set df \<Longrightarrow> key_sum df k = 0"
proof -
  assume "k \<notin> fst ` set df"
  then have "filter (\<lambda>kv. fst kv = k) df = []" by (auto simp: filter_empty_conv)
  then show ?thesis by (simp add: key_sum_def)
qed

lemma groupby_sum4_tabulate:
  "groupby_sum4 df = map (\<lambda>k. (k, key_sum df k)) (sort_key rank4 (remdups (map fst df)))"
  by (simp add: groupby_sum4_def groupby_def key_sum_def comp_def)

lemma key_sum_groupby_sum4: "key_sum (groupby_sum4 df) k = key_sum df k"
  by (simp add: groupby_sum4_tabulate key_sum_tabulate key_sum_absent)

lemma key_sum_concat: "key_sum (concat xss) k = sum_list (map (\<lambda>xs. key_sum xs k) xss)"
  by (induction xss) (simp_all add: key_sum_def)

lemma keys_groupby_sum4: "fst ` set (groupby_sum4 df) = fst ` set df"
proof -
  have "set (map fst (groupby_sum4 df)) = set (map fst df)"
    by (simp add: groupby_sum4_tabulate comp_def)
  then show ?thesis by simp
qed

lemma groupby_sum4_cong:
  assumes "fst ` set a = fst ` set b" and "\<And>k. key_sum a k = key_sum b k"
  shows "groupby_sum4 a = groupby_sum4 b"
proof -
  have "sort_key rank4 (remdups (map fst a)) = sort_key rank4 (remdups (map fst b))"
    using assms(1) by (intro sort_key_remdups_cong inj_rank4) simp
  then show ?thesis by (simp add: groupby_sum4_tabulate assms(2))
qed

lemma reaggregate_partial_sums:
  "reaggregate (map groupby_sum4 parts) = groupby_sum4 (concat parts)"
  unfolding reaggregate_def
proof (rule groupby_sum4_cong)
  show "fst ` set (concat (map groupby_sum4 parts)) = fst ` set (concat parts)"
    by (auto simp: keys_groupby_sum4 image_UN)
next
  fix k
  show "key_sum (concat (map groupby_sum4 parts)) k = key_sum (concat parts) k"
    by (simp add: key_sum_concat comp_def key_sum_groupby_sum4)
qed

lemma chunks_Nil: "chunks n [] = []"
  by (simp add: chunks.simps)

lemma chunks_step: "0 < n \<Longrightarrow> xs \<noteq> [] \<Longrightarrow> chunks n xs = take n xs # chunks n (drop n xs)"
  by (simp add: chunks.simps [of n xs])

lemma concat_chunks: "0 < n \<Longrightarrow> concat (chunks n xs) = xs"
proof (induction n xs rule: chunks.induct)
  case (1 n xs)
  then show ?case by (cases "xs = []") (simp_all add: chunks_Nil chunks_step)
qed

lemma chunks_nonempty: "0 < n \<Longrightarrow> c \<in> set (chunks n xs) \<Longrightarrow> c \<noteq> [] \<and> length c \<le> n"
proof (induction n xs rule: chunks.induct)
  case (1 n xs)
  then show ?case by (cases "xs = []") (auto simp add: chunks_Nil chunks_step)
qed

lemma two_pass_any_split:
  "reaggregate (map chunk_agg parts) = chunk_agg (concat parts)"
proof -
  let ?f = "\<lambda>r. (key4_of r, fillna0 (ValorDespesas r))"
  have "map chunk_agg parts = map groupby_sum4 (map (map ?f) parts)"
    by (simp add: chunk_agg_def comp_def)
  then have "reaggregate (map chunk_agg parts) = groupby_sum4 (concat (map (map ?f) parts))"
    by (simp only: reaggregate_partial_sums)
  also have "concat (map (map ?f) parts) = map ?f (concat parts)"
    by (simp add: map_concat)
  also have "groupby_sum4 (map ?f (concat parts)) = chunk_agg (concat parts)"
    by (simp add: chunk_agg_def)
  finally show ?thesis .
qed

lemma key_sum_rows:
  "key_sum (map (\<lambda>r. (key4_of r, fillna0 (ValorDespesas r))) df) k = group_total df k"
  by (simp add: key_sum_def group_total_def filter_map comp_def)

lemma chunk_agg_tabulate:
  "chunk_agg df = map (\<lambda>k. (k, group_total df k)) (sort_key rank4 (remdups (map key4_of df)))"
  by (simp add: chunk_agg_def groupby_sum4_tabulate key_sum_rows comp_def)


subsection \<open>The statistics frame\<close>

lemma chunks_empty_iff: "0 < n \<Longrightarrow> chunks n xs = [] \<longleftrightarrow> xs = []"
  by (cases "xs = []") (simp_all add: chunks_Nil chunks_step)

lemma executar_agregacao_saved:
  assumes "0 < n"
  shows "executar_agregacao srt n (Some df) =
           (if df = [] then NoData else Saved (srt (agregar_stats (agregar_trimestres n df))))"
  using assms
  by (simp add: executar_agregacao_def Let_def chunks_empty_iff agregar_trimestres_def)

lemma ks4_props: "distinct (ks4 df)" "set (ks4 df) = key4_of ` set df"
  by (simp_all add: ks4_def)

lemma agregar_stats_tabulate:
  "agregar_stats (chunk_agg df) =
     map (\<lambda>g. agg_row (g, map (group_total df) (filter (\<lambda>k. key2_of k = g) (ks4 df))))
         (sort_key rank2 (remdups (map key2_of (ks4 df))))"
  by (simp add: agregar_stats_def chunk_agg_tabulate groupby_def comp_def filter_map ks4_def)

lemma stats_keys:
  "(\<lambda>s. (s_RazaoSocial s, s_UF s)) ` set (agregar_stats (chunk_agg df)) = (\<lambda>r. (RazaoSocial r, UF r)) ` set df"
proof -
  have "(\<lambda>s. (s_RazaoSocial s, s_UF s)) ` set (agregar_stats (chunk_agg df)) = key2_of ` set (ks4 df)"
    by (simp add: agregar_stats_tabulate image_image agg_row_def)
  also have "\<dots> = (\<lambda>r. (RazaoSocial r, UF r)) ` set df"
    by (simp add: ks4_props image_image key2_of_def key4_of_def)
  finally show ?thesis .
qed

lemma stats_row_shape:
  assumes "s \<in> set (agregar_stats (chunk_agg df))"
  shows "\<exists>g \<in> key2_of ` set (ks4 df). s = agg_row (g, map (group_total df) (filter (\<lambda>k. key2_of k = g) (ks4 df)))"
  using assms by (auto simp: agregar_stats_tabulate)

lemma periods_bij:
  "{k \<in> key4_of ` set df. key2_of k = g} = (\<lambda>p. (fst g, snd g, fst p, snd p)) ` periods_of df g"
  by (auto simp: periods_of_def key4_of_def key2_of_def image_iff split: prod.splits)

lemma length_group:
  "length (filter (\<lambda>k. key2_of k = g) (ks4 df)) = card (periods_of df g)"
proof -
  have "length (filter (\<lambda>k. key2_of k = g) (ks4 df)) = card (set (filter (\<lambda>k. key2_of k = g) (ks4 df)))"
    by (simp add: distinct_card ks4_props del: set_filter)
  also have "set (filter (\<lambda>k. key2_of k = g) (ks4 df)) = {k \<in> key4_of ` set df. key2_of k = g}"
    by (simp add: ks4_props)
  also have "card \<dots> = card (periods_of df g)"
    unfolding periods_bij by (rule card_image) (auto simp: inj_on_def prod_eq_iff)
  finally show ?thesis .
qed

lemma std_ddof1_NaN: "std_ddof1 vs = NaN \<longleftrightarrow> length vs \<le> 1"
  by (simp add: std_ddof1_def Let_def)

lemma group_nonempty:
  "g \<in> key2_of ` set (ks4 df) \<Longrightarrow> 0 < length (filter (\<lambda>k. key2_of k = g) (ks4 df))"
  by (auto simp: filter_empty_conv)

lemma stats_row_periods:
  assumes "s \<in> set (agregar_stats (chunk_agg df))"
  shows "NumTrimestres s = card (periods_of df (s_RazaoSocial s, s_UF s))"
    and "DesvioPadraoPorTrimestre s = NaN \<longleftrightarrow> NumTrimestres s = 1"
proof -
  from stats_row_shape [OF assms] obtain g where
    g: "g \<in> key2_of ` set (ks4 df)"
    and s: "s = agg_row (g, map (group_total df) (filter (\<lambda>k. key2_of k = g) (ks4 df)))"
    by blast
  have key: "(s_RazaoSocial s, s_UF s) = g" by (simp add: s agg_row_def)
  have n: "NumTrimestres s = length (filter (\<lambda>k. key2_of k = g) (ks4 df))"
    by (simp add: s agg_row_def)
  show "NumTrimestres s = card (periods_of df (s_RazaoSocial s, s_UF s))"
    by (simp only: key n length_group)
  have "DesvioPadraoPorTrimestre s = NaN \<longleftrightarrow> NumTrimestres s \<le> 1"
    by (simp add: s agg_row_def std_ddof1_NaN)
  moreover have "0 < NumTrimestres s" using group_nonempty [OF g] by (simp only: n)
  ultimately show "DesvioPadraoPorTrimestre s = NaN \<longleftrightarrow> NumTrimestres s = 1" by auto
qed

lemma sum_key_sums:
  "finite K \<Longrightarrow> fst ` set df \<subseteq> K \<Longrightarrow> (\<Sum>k\<in>K. key_sum df k) = sum_list (map snd df)"
proof (induction df)
  case Nil
  then show ?case by (simp add: key_sum_def)
next
  case (Cons x df)
  have "(\<Sum>k\<in>K. key_sum (x # df) k) = (\<Sum>k\<in>K. (if k = fst x then snd x else 0) + key_sum df k)"
    by (rule sum.cong) (auto simp: key_sum_def)
  also have "\<dots> = snd x + (\<Sum>k\<in>K. key_sum df k)"
    using Cons.prems by (simp add: sum.distrib)
  finally show ?case using Cons by simp
qed

lemma group_total_restrict:
  "key2_of k = g \<Longrightarrow>
   group_total df k = key_sum (map (\<lambda>r. (key4_of r, fillna0 (ValorDespesas r))) (filter (\<lambda>r. (RazaoSocial r, UF r) = g) df)) k"
proof -
  assume "key2_of k = g"
  then have "filter (\<lambda>r. key4_of r = k) (filter (\<lambda>r. (RazaoSocial r, UF r) = g) df) = filter (\<lambda>r. key4_of r = k) df"
    by (auto simp: key2_of_def key4_of_def intro!: filter_cong split: prod.splits)
  then show ?thesis
    by (simp add: key_sum_def group_total_def filter_map comp_def)
qed

lemma stats_row_total:
  assumes "s \<in> set (agregar_stats (chunk_agg df))"
  shows "TotalDespesas s =
     sum_list (map (\<lambda>r. fillna0 (ValorDespesas r)) (filter (\<lambda>r. (RazaoSocial r, UF r) = (s_RazaoSocial s, s_UF s)) df))"
proof -
  from stats_row_shape [OF assms] obtain g where
    s: "s = agg_row (g, map (group_total df) (filter (\<lambda>k. key2_of k = g) (ks4 df)))"
    by blast
  let ?K = "filter (\<lambda>k. key2_of k = g) (ks4 df)"
  let ?sub = "map (\<lambda>r. (key4_of r, fillna0 (ValorDespesas r))) (filter (\<lambda>r. (RazaoSocial r, UF r) = g) df)"
  have key: "(s_RazaoSocial s, s_UF s) = g" by (simp add: s agg_row_def)
  have "TotalDespesas s = sum_list (map (group_total df) ?K)"
    by (simp add: s agg_row_def)
  also have "\<dots> = sum_list (map (key_sum ?sub) ?K)"
    by (rule arg_cong [where f = sum_list], rule map_cong) (auto intro: group_total_restrict)
  also have "\<dots> = (\<Sum>k\<in>set ?K. key_sum ?sub k)"
    by (rule sum_list_distinct_conv_sum_set) (simp add: ks4_props)
  also have "\<dots> = sum_list (map snd ?sub)"
    by (rule sum_key_sums) (auto simp: ks4_props key2_of_def key4_of_def)
  finally show ?thesis by (simp add: key comp_def)
qed

lemma groupby_total:
  fixes df :: "('k \<times> rat) list"
  shows "sum_list (map (\<lambda>g. sum_list (snd g)) (groupby False h r df)) = sum_list (map snd df)"
proof -
  let ?gs = "sort_key r (remdups (map fst df))"
  have "sum_list (map (\<lambda>g. sum_list (snd g)) (groupby False h r df)) = sum_list (map (key_sum df) ?gs)"
    by (simp add: groupby_def comp_def key_sum_def [abs_def])
  also have "\<dots> = (\<Sum>k\<in>set ?gs. key_sum df k)"
    by (rule sum_list_distinct_conv_sum_set) simp
  also have "\<dots> = sum_list (map snd df)"
    by (rule sum_key_sums) simp_all
  finally show ?thesis .
qed

lemma groupby_sum4_total: "sum_list (map snd (groupby_sum4 df)) = sum_list (map snd df)"
  using groupby_total [of has_na4 rank4 df] by (simp add: groupby_sum4_def comp_def)

lemma stats_grand_total:
  "sum_list (map TotalDespesas (agregar_stats (chunk_agg df))) = sum_list (map (\<lambda>r. fillna0 (ValorDespesas r)) df)"
proof -
  let ?P = "map (\<lambda>q. (key2_of (fst q), snd q)) (chunk_agg df)"
  have "sum_list (map TotalDespesas (agregar_stats (chunk_agg df))) =
        sum_list (map (\<lambda>g. sum_list (snd g)) (groupby False has_na2 rank2 ?P))"
    by (simp add: agregar_stats_def comp_def agg_row_def)
  also have "\<dots> = sum_list (map snd ?P)"
    by (rule groupby_total)
  also have "\<dots> = sum_list (map snd (chunk_agg df))"
    by (simp add: comp_def)
  also have "\<dots> = sum_list (map (\<lambda>r. fillna0 (ValorDespesas r)) df)"
    by (simp add: chunk_agg_def groupby_sum4_total comp_def)
  finally show ?thesis .
qed


lemma desc_rev_sort_key:
  fixes T :: "'a \<Rightarrow> rat"
  shows "sorted_wrt (\<lambda>a b. T b \<le> T a) (rev (sort_key T xs))"
proof -
  have "sorted (map T (sort_key T xs))" by simp
  then have "sorted_wrt (\<lambda>a b. T a \<le> T b) (sort_key T xs)" by (simp add: sorted_map)
  then show ?thesis by (simp add: sorted_wrt_rev)
qed

lemma sort_values_stable_sorts: "sorts_desc sort_values_stable stats"
  by (simp add: sorts_desc_def sort_values_stable_def desc_rev_sort_key)


lemma agregar_trimestres_whole: "0 < n \<Longrightarrow> agregar_trimestres n df = chunk_agg df"
  by (simp add: agregar_trimestres_def two_pass_any_split concat_chunks)

lemma saved_out:
  assumes "0 < n" and "executar_agregacao srt n (Some df) = Saved out"
  shows "df \<noteq> []" and "out = srt (agregar_stats (chunk_agg df))"
proof -
  show "df \<noteq> []" using assms by (auto simp: executar_agregacao_saved)
  then show "out = srt (agregar_stats (chunk_agg df))"
    using assms by (simp add: executar_agregacao_saved agregar_trimestres_whole)
qed

lemma saved_out_perm:
  assumes "0 < n" and "sorts_desc srt (agregar_stats (agregar_trimestres n df))"
    and "executar_agregacao srt n (Some df) = Saved out"
  shows "mset out = mset (agregar_stats (chunk_agg df))"
    and "set out = set (agregar_stats (chunk_agg df))"
    and "sorted_wrt (\<lambda>a b. TotalDespesas b \<le> TotalDespesas a) out"
proof -
  have o: "out = srt (agregar_stats (chunk_agg df))"
    using assms(1,3) by (rule saved_out)
  show m: "mset out = mset (agregar_stats (chunk_agg df))"
    using assms(1,2) by (simp add: o sorts_desc_def agregar_trimestres_whole)
  then show "set out = set (agregar_stats (chunk_agg df))"
    by (metis set_mset_mset)
  show "sorted_wrt (\<lambda>a b. TotalDespesas b \<le> TotalDespesas a) out"
    using assms(1,2) by (simp add: o sorts_desc_def agregar_trimestres_whole)
qed

subsection \<open>Aggregation in chunks\<close>



subsection \<open>Standard deviation of a single period\<close>

text \<open>
  C7.  In a saved output, \<open>NumTrimestres\<close> of every row is the number of distinct periods
  in which its (RazaoSocial, UF) group has rows.  A group with exactly one contributing
  period therefore has \<open>NumTrimestres = 1\<close>, and its \<open>DesvioPadraoPorTrimestre\<close> is NaN:
  not a number, and the run is not aborted.  The standard deviation is NaN for these
  groups only.
\<close>

theorem single_period_std_is_nan:
  assumes "0 < chunksize"
    and "sorts_desc sort_values (agregar_stats (agregar_trimestres chunksize df))"
    and "executar_agregacao sort_values chunksize (Some df) = Saved out"
    and "s \<in> set out"
  shows "NumTrimestres s = card (periods_of df (s_RazaoSocial s, s_UF s))
    \<and> (card (periods_of df (s_RazaoSocial s, s_UF s)) = 1 \<longrightarrow>
         NumTrimestres s = 1 \<and> DesvioPadraoPorTrimestre s = NaN)
    \<and> (DesvioPadraoPorTrimestre s = NaN \<longleftrightarrow> NumTrimestres s = 1)"
proof -
  have "set out = set (agregar_stats (chunk_agg df))"
    using assms(1-3) by (rule saved_out_perm)
  with assms(4) have s: "s \<in> set (agregar_stats (chunk_agg df))" by simp
  show ?thesis using stats_row_periods [OF s] by simp
qed

theorem single_period_std_is_nan_witness:
  "(0::nat) < 2
   \<and> sorts_desc sort_values_stable (agregar_stats (agregar_trimestres 2 ex_periods))
   \<and> executar_agregacao sort_values_stable 2 (Some ex_periods) = Saved
       [\<lparr>s_RazaoSocial = Some ''A'', s_UF = Some ''SP'', TotalDespesas = 40,
        MediaPorTrimestre = 20, DesvioPadraoPorTrimestre = Sqrt 200, NumTrimestres = 2\<rparr>,
        \<lparr>s_RazaoSocial = Some ''B'', s_UF = Some ''RJ'', TotalDespesas = 5,
        MediaPorTrimestre = 5, DesvioPadraoPorTrimestre = NaN, NumTrimestres = 1\<rparr>]
   \<and> card (periods_of ex_periods (Some ''B'', Some ''RJ'')) = 1
   \<and> NumTrimestres
        \<lparr>s_RazaoSocial = Some ''B'', s_UF = Some ''RJ'', TotalDespesas = 5,
        MediaPorTrimestre = 5, DesvioPadraoPorTrimestre = NaN, NumTrimestres = 1\<rparr> = 1
   \<and> DesvioPadraoPorTrimestre
        \<lparr>s_RazaoSocial = Some ''B'', s_UF = Some ''RJ'', TotalDespesas = 5,
        MediaPorTrimestre = 5, DesvioPadraoPorTrimestre = NaN, NumTrimestres = 1\<rparr> = NaN"
proof -
  let ?a = "\<lparr>s_RazaoSocial = Some ''A'', s_UF = Some ''SP'', TotalDespesas = 40,
        MediaPorTrimestre = 20, DesvioPadraoPorTrimestre = Sqrt 200, NumTrimestres = 2\<rparr>"
  let ?b = "\<lparr>s_RazaoSocial = Some ''B'', s_UF = Some ''RJ'', TotalDespesas = 5,
        MediaPorTrimestre = 5, DesvioPadraoPorTrimestre = NaN, NumTrimestres = 1\<rparr>"
  have pos: "(0::nat) < 2" by simp
  have srt: "sorts_desc sort_values_stable (agregar_stats (agregar_trimestres 2 ex_periods))"
    by (rule sort_values_stable_sorts)
  have run: "executar_agregacao sort_values_stable 2 (Some ex_periods) = Saved [?a, ?b]"
    by code_simp
  have mem: "?b \<in> set [?a, ?b]" by simp
  have one: "card (periods_of ex_periods (Some ''B'', Some ''RJ'')) = 1"
    by code_simp
  from single_period_std_is_nan [OF pos srt run mem] one
  have "NumTrimestres ?b = 1 \<and> DesvioPadraoPorTrimestre ?b = NaN" by simp
  with pos srt run one show ?thesis by simp
qed

subsection \<open>Rows with missing keys\<close>

text \<open>
  C10.  No group-by of the Aggregator discards a row whose RazaoSocial, UF, Ano or Trimestre
  is missing: every one of them groups with \<open>dropna=False\<close>.  Every chunk's partial frame and
  the re-aggregated frame have a group for the key of every row, missing components
  included; the saved output has a row for the (RazaoSocial, UF) of every input row; the
  total of an output row is the sum of the values of all input rows with that
  (RazaoSocial, UF), missing or not; and the totals of the output add up to the sum of all
  input values.
\<close>

theorem null_keyed_rows_are_counted:
  assumes "0 < chunksize"
    and "sorts_desc sort_values (agregar_stats (agregar_trimestres chunksize df))"
    and "executar_agregacao sort_values chunksize (Some df) = Saved out"
  shows "(\<forall>r \<in> set df. \<exists>s \<in> set out. s_RazaoSocial s = RazaoSocial r \<and> s_UF s = UF r)
    \<and> (\<forall>s \<in> set out. TotalDespesas s =
          sum_list (map (\<lambda>r. fillna0 (ValorDespesas r))
            (filter (\<lambda>r. (RazaoSocial r, UF r) = (s_RazaoSocial s, s_UF s)) df)))
    \<and> sum_list (map TotalDespesas out) = sum_list (map (\<lambda>r. fillna0 (ValorDespesas r)) df)
    \<and> fst ` set (agregar_trimestres chunksize df) = key4_of ` set df
    \<and> (\<forall>chunk \<in> set (chunks chunksize df). fst ` set (chunk_agg chunk) = key4_of ` set chunk)"
proof -
  let ?stats = "agregar_stats (chunk_agg df)"
  have m: "mset out = mset ?stats" and sets: "set out = set ?stats"
    using assms by (rule saved_out_perm)+
  have groups: "\<forall>r \<in> set df. \<exists>s \<in> set out. s_RazaoSocial s = RazaoSocial r \<and> s_UF s = UF r"
  proof
    fix r assume "r \<in> set df"
    then have "(RazaoSocial r, UF r) \<in> (\<lambda>s. (s_RazaoSocial s, s_UF s)) ` set ?stats"
      by (simp only: stats_keys) (rule imageI)
    then show "\<exists>s \<in> set out. s_RazaoSocial s = RazaoSocial r \<and> s_UF s = UF r"
      by (auto simp: sets)
  qed
  have totals: "\<forall>s \<in> set out. TotalDespesas s =
          sum_list (map (\<lambda>r. fillna0 (ValorDespesas r))
            (filter (\<lambda>r. (RazaoSocial r, UF r) = (s_RazaoSocial s, s_UF s)) df))"
    using stats_row_total by (simp add: sets)
  have "sum_list (map TotalDespesas out) = sum_mset (mset (map TotalDespesas out))"
    by (simp only: sum_mset_sum_list)
  also have "mset (map TotalDespesas out) = mset (map TotalDespesas ?stats)"
    using m by simp
  also have "sum_mset \<dots> = sum_list (map TotalDespesas ?stats)"
    by (simp only: sum_mset_sum_list)
  finally have grand:
    "sum_list (map TotalDespesas out) = sum_list (map (\<lambda>r. fillna0 (ValorDespesas r)) df)"
    by (simp only: stats_grand_total)
  have quarters: "fst ` set (agregar_trimestres chunksize df) = key4_of ` set df"
    using assms(1) by (simp add: agregar_trimestres_whole chunk_agg_tabulate image_image)
  have per_chunk:
    "\<forall>chunk \<in> set (chunks chunksize df). fst ` set (chunk_agg chunk) = key4_of ` set chunk"
    by (simp add: chunk_agg_tabulate image_image)
  from groups totals grand quarters per_chunk show ?thesis by (intro conjI)
qed

theorem null_keyed_rows_are_counted_witness:
  "(0::nat) < 2
   \<and> sorts_desc sort_values_stable (agregar_stats (agregar_trimestres 2 ex_null))
   \<and> executar_agregacao sort_values_stable 2 (Some ex_null) = Saved
       [\<lparr>s_RazaoSocial = None, s_UF = None, TotalDespesas = 7,
        MediaPorTrimestre = 7, DesvioPadraoPorTrimestre = NaN, NumTrimestres = 1\<rparr>,
        \<lparr>s_RazaoSocial = Some ''A'', s_UF = Some ''SP'', TotalDespesas = 3,
        MediaPorTrimestre = 3 / 2, DesvioPadraoPorTrimestre = Sqrt (1 / 2), NumTrimestres = 2\<rparr>,
        \<lparr>s_RazaoSocial = Some ''A'', s_UF = None, TotalDespesas = 0,
        MediaPorTrimestre = 0, DesvioPadraoPorTrimestre = NaN, NumTrimestres = 1\<rparr>]
   \<and> agregar_trimestres 2 ex_null =
       [((Some ''A'', Some ''SP'', Some 2025, Some 1), 1),
        ((Some ''A'', Some ''SP'', Some 2025, None), 2),
        ((Some ''A'', None, Some 2025, Some 1), 0),
        ((None, None, None, None), 7)]
   \<and> sum_list (map (\<lambda>r. fillna0 (ValorDespesas r)) ex_null) = 10
   \<and> (\<exists>s \<in> set [\<lparr>s_RazaoSocial = None, s_UF = None, TotalDespesas = 7,
        MediaPorTrimestre = 7, DesvioPadraoPorTrimestre = NaN, NumTrimestres = 1\<rparr>,
        \<lparr>s_RazaoSocial = Some ''A'', s_UF = Some ''SP'', TotalDespesas = 3,
        MediaPorTrimestre = 3 / 2, DesvioPadraoPorTrimestre = Sqrt (1 / 2), NumTrimestres = 2\<rparr>,
        \<lparr>s_RazaoSocial = Some ''A'', s_UF = None, TotalDespesas = 0,
        MediaPorTrimestre = 0, DesvioPadraoPorTrimestre = NaN, NumTrimestres = 1\<rparr>]. s_RazaoSocial s = None \<and> s_UF s = None)"
proof -
  let ?out = "[\<lparr>s_RazaoSocial = None, s_UF = None, TotalDespesas = 7,
        MediaPorTrimestre = 7, DesvioPadraoPorTrimestre = NaN, NumTrimestres = 1\<rparr>,
        \<lparr>s_RazaoSocial = Some ''A'', s_UF = Some ''SP'', TotalDespesas = 3,
        MediaPorTrimestre = 3 / 2, DesvioPadraoPorTrimestre = Sqrt (1 / 2), NumTrimestres = 2\<rparr>,
        \<lparr>s_RazaoSocial = Some ''A'', s_UF = None, TotalDespesas = 0,
        MediaPorTrimestre = 0, DesvioPadraoPorTrimestre = NaN, NumTrimestres = 1\<rparr>]"
  have pos: "(0::nat) < 2" by simp
  have srt: "sorts_desc sort_values_stable (agregar_stats (agregar_trimestres 2 ex_null))"
    by (rule sort_values_stable_sorts)
  have run: "executar_agregacao sort_values_stable 2 (Some ex_null) = Saved ?out"
    by code_simp
  have quarters: "agregar_trimestres 2 ex_null =
       [((Some ''A'', Some ''SP'', Some 2025, Some 1), 1),
        ((Some ''A'', Some ''SP'', Some 2025, None), 2),
        ((Some ''A'', None, Some 2025, Some 1), 0),
        ((None, None, None, None), 7)]"
    by code_simp
  have total: "sum_list (map (\<lambda>r. fillna0 (ValorDespesas r)) ex_null) = 10"
    by code_simp
  have first: "hd ex_null \<in> set ex_null" "RazaoSocial (hd ex_null) = None" "UF (hd ex_null) = None"
    by (simp_all add: ex_null_def mk_row_def)
  from null_keyed_rows_are_counted [OF pos srt run]
  have "\<forall>r \<in> set ex_null. \<exists>s \<in> set ?out. s_RazaoSocial s = RazaoSocial r \<and> s_UF s = UF r"
    by (rule conjunct1)
  with first have "\<exists>s \<in> set ?out. s_RazaoSocial s = None \<and> s_UF s = None"
    by metis
  with pos srt run quarters total show ?thesis by (intro conjI)
qed

subsection \<open>Order of the output\<close>




subsection \<open>Year and quarter of an archive\<close>

text \<open>
  C3.  The three patterns are tried in the stated order.  On \<open>1T2025_despesas.zip\<close> the
  first one gives year 2025 and quarter 1, and on \<open>relatorio.zip\<close> none matches, so both
  fields become \<open>N/A\<close>.  On \<open>202503_relatorio.zip\<close> the run of six digits never reaches the
  third pattern: the second one matches \<open>0250\<close>, \<open>3\<close> and the underscore inside it, and the
  function returns year 250 and quarter 3, where the six digits read as year and month give
  year 2025 and quarter 1.
\<close>

theorem year_quarter_of_spec_examples:
  "extract_year_quarter_from_name ''1T2025_despesas.zip'' = Some (2025, 1)
   \<and> ano_trimestre ''1T2025_despesas.zip'' = (''2025'', ''1'')
   \<and> re_search match_quarter_T_year ''202503_relatorio.zip'' = None
   \<and> re_search match_year_sep_quarter ''202503_relatorio.zip'' = Some (''0250'', ''3'')
   \<and> re_search match_six_digits ''202503_relatorio.zip'' = Some ''202503''
   \<and> extract_year_quarter_from_name ''202503_relatorio.zip'' = Some (250, 3)
   \<and> ano_trimestre ''202503_relatorio.zip'' = (''250'', ''3'')
   \<and> extract_year_quarter_from_name ''relatorio.zip'' = None
   \<and> ano_trimestre ''relatorio.zip'' = (''N/A'', ''N/A'')"
  by code_simp

subsection \<open>Validation\<close>

lemma fst_merge_left: "set (map fst (merge_left lk rk ls rs)) = set ls"
  by (induction ls) (auto simp: merge_left_def split: list.splits)


lemma fst_enrich: "fst ` set (enrich m df) = set df"
proof (cases m)
  case (Mapping rows)
  have "fst ` set (enrich m df) = set (map fst (merge_left c_RegistroANS m_RegistroANS df rows))"
    by (simp add: enrich_def Mapping image_image)
  then show ?thesis by (simp only: fst_merge_left)
qed (auto simp: enrich_def image_image)

lemma despesa_of_flag_row: "despesa_of (flag_row dr) = fst dr"
  by (simp add: despesa_of_def flag_row_def)

lemma value_flag_row: "v_ValorDespesas (flag_row dr) = c_ValorDespesas (fst dr)"
  by (simp add: flag_row_def)

lemma positive_iff: "positive v \<longleftrightarrow> (\<exists>x. v = Some x \<and> 0 < x)"
  by (cases v) (simp_all add: positive_def)

lemma validated_shape:
  assumes "executar_validacao m (Consolidado df) = Validated limpo out"
  shows "limpo = filter (\<lambda>r. positive (v_ValorDespesas r)) (map flag_row (enrich m df))"
    and "out = map project limpo"
  using assms by (auto simp add: executar_validacao_def Let_def)

lemma survivors:
  assumes "executar_validacao m (Consolidado df) = Validated limpo out"
  shows "despesa_of ` set limpo = {d \<in> set df. positive (c_ValorDespesas d)}"
proof -
  let ?E = "enrich m df"
  have "set limpo = flag_row ` {e \<in> set ?E. positive (c_ValorDespesas (fst e))}"
    by (auto simp: validated_shape(1) [OF assms] value_flag_row)
  then have "despesa_of ` set limpo = fst ` {e \<in> set ?E. positive (c_ValorDespesas (fst e))}"
    by (simp add: image_image despesa_of_flag_row)
  also have "\<dots> = {d \<in> fst ` set ?E. positive (c_ValorDespesas d)}"
    by force
  finally show ?thesis by (simp only: fst_enrich)
qed



text \<open>
  C4.  A row of the consolidated input survives validation exactly when its \<open>ValorDespesas\<close>
  is a number greater than zero; a missing or unparseable value, zero and negative values
  are dropped.  Nothing else decides: neither the identifier nor the name of the entity
  enters the filter, a row is only flagged (\<open>CNPJ_Valido\<close>, in the filtered frame), and the
  flag is set only where \<open>validar_cnpj\<close> accepts the identifier.  The file written holds the
  five columns of the surviving rows.
\<close>

theorem survives_iff_positive_value:
  assumes "executar_validacao m (Consolidado df) = Validated limpo out"
  shows "(\<forall>d \<in> set df. (\<exists>r \<in> set limpo. despesa_of r = d) \<longleftrightarrow> (\<exists>x. c_ValorDespesas d = Some x \<and> 0 < x))
    \<and> (\<forall>r \<in> set limpo. despesa_of r \<in> set df \<and> (CNPJ_Valido r \<longrightarrow> validar_cnpj (v_CNPJ r)))
    \<and> out = map project limpo"
proof -
  note s = survivors [OF assms]
  have a: "\<forall>d \<in> set df. (\<exists>r \<in> set limpo. despesa_of r = d) \<longleftrightarrow> (\<exists>x. c_ValorDespesas d = Some x \<and> 0 < x)"
  proof
    fix d assume d: "d \<in> set df"
    have "(\<exists>r \<in> set limpo. despesa_of r = d) \<longleftrightarrow> d \<in> despesa_of ` set limpo" by auto
    also have "\<dots> \<longleftrightarrow> positive (c_ValorDespesas d)" using d by (simp add: s)
    finally show "(\<exists>r \<in> set limpo. despesa_of r = d) \<longleftrightarrow> (\<exists>x. c_ValorDespesas d = Some x \<and> 0 < x)"
      by (simp only: positive_iff)
  qed
  have b: "\<forall>r \<in> set limpo. despesa_of r \<in> set df \<and> (CNPJ_Valido r \<longrightarrow> validar_cnpj (v_CNPJ r))"
  proof
    fix r assume r: "r \<in> set limpo"
    then have "despesa_of r \<in> despesa_of ` set limpo" by (rule imageI)
    then have 1: "despesa_of r \<in> set df" by (simp add: s)
    from r obtain dr where "r = flag_row dr"
      by (auto simp: validated_shape(1) [OF assms])
    then have "CNPJ_Valido r \<longrightarrow> validar_cnpj (v_CNPJ r)"
      by (cases "snd dr") (simp_all add: flag_row_def)
    with 1 show "despesa_of r \<in> set df \<and> (CNPJ_Valido r \<longrightarrow> validar_cnpj (v_CNPJ r))" ..
  qed
  from a b validated_shape(2) [OF assms] show ?thesis by (intro conjI)
qed

text \<open>
  C4, the example: of the values \<open>-5\<close>, \<open>0\<close> and \<open>0.01\<close> only the last survives, and its row,
  whose identifier is \<open>123\<close> and whose name is missing, is kept with the flag false.
\<close>

theorem survives_iff_positive_value_witness:
  "executar_validacao (Mapping ex_mapping) (Consolidado ex_values) = Validated
       [\<lparr>v_RegistroANS = ''333'', v_CNPJ = Some ''123'', v_RazaoSocial = None,
        v_Trimestre = Some ''1'', v_Ano = Some ''2025'',
        v_ValorDespesas = Some (1 / 100), CNPJ_Valido = False\<rparr>]
       [\<lparr>o_CNPJ = Some ''123'', o_RazaoSocial = None, o_Trimestre = Some ''1'',
        o_Ano = Some ''2025'', o_ValorDespesas = Some (1 / 100)\<rparr>]
   \<and> map c_ValorDespesas ex_values = [Some (- 5), Some 0, Some (1 / 100)]
   \<and> (\<exists>r \<in> set [\<lparr>v_RegistroANS = ''333'', v_CNPJ = Some ''123'', v_RazaoSocial = None,
        v_Trimestre = Some ''1'', v_Ano = Some ''2025'',
        v_ValorDespesas = Some (1 / 100), CNPJ_Valido = False\<rparr>]. despesa_of r = ex_values ! 2)
   \<and> \<not> (\<exists>r \<in> set [\<lparr>v_RegistroANS = ''333'', v_CNPJ = Some ''123'', v_RazaoSocial = None,
        v_Trimestre = Some ''1'', v_Ano = Some ''2025'',
        v_ValorDespesas = Some (1 / 100), CNPJ_Valido = False\<rparr>]. despesa_of r = ex_values ! 0)
   \<and> \<not> (\<exists>r \<in> set [\<lparr>v_RegistroANS = ''333'', v_CNPJ = Some ''123'', v_RazaoSocial = None,
        v_Trimestre = Some ''1'', v_Ano = Some ''2025'',
        v_ValorDespesas = Some (1 / 100), CNPJ_Valido = False\<rparr>]. despesa_of r = ex_values ! 1)"
proof -
  let ?limpo = "[\<lparr>v_RegistroANS = ''333'', v_CNPJ = Some ''123'', v_RazaoSocial = None,
        v_Trimestre = Some ''1'', v_Ano = Some ''2025'',
        v_ValorDespesas = Some (1 / 100), CNPJ_Valido = False\<rparr>]"
  have run: "executar_validacao (Mapping ex_mapping) (Consolidado ex_values) = Validated ?limpo
       [\<lparr>o_CNPJ = Some ''123'', o_RazaoSocial = None, o_Trimestre = Some ''1'',
        o_Ano = Some ''2025'', o_ValorDespesas = Some (1 / 100)\<rparr>]"
    by code_simp
  have vals: "map c_ValorDespesas ex_values = [Some (- 5), Some 0, Some (1 / 100)]"
    by (simp add: ex_values_def)
  from survives_iff_positive_value [OF run]
  have iff: "\<forall>d \<in> set ex_values.
      (\<exists>r \<in> set ?limpo. despesa_of r = d) \<longleftrightarrow> (\<exists>x. c_ValorDespesas d = Some x \<and> 0 < x)"
    by (rule conjunct1)
  have mem: "ex_values ! 0 \<in> set ex_values" "ex_values ! 1 \<in> set ex_values" "ex_values ! 2 \<in> set ex_values"
    by (simp_all add: ex_values_def)
  have v: "\<not> (\<exists>x. c_ValorDespesas (ex_values ! 0) = Some x \<and> 0 < x)"
    "\<not> (\<exists>x. c_ValorDespesas (ex_values ! 1) = Some x \<and> 0 < x)"
    by (simp_all add: ex_values_def)
  have "c_ValorDespesas (ex_values ! 2) = Some (1 / 100) \<and> (0::rat) < 1 / 100"
    by (simp add: ex_values_def)
  then have v3: "\<exists>x. c_ValorDespesas (ex_values ! 2) = Some x \<and> 0 < x" ..
  have "\<exists>r \<in> set ?limpo. despesa_of r = ex_values ! 2"
    using iff mem(3) v3 by blast
  moreover have "\<not> (\<exists>r \<in> set ?limpo. despesa_of r = ex_values ! 0)"
    using iff mem(1) v(1) by blast
  moreover have "\<not> (\<exists>r \<in> set ?limpo. despesa_of r = ex_values ! 1)"
    using iff mem(2) v(2) by blast
  ultimately show ?thesis using run vals by (intro conjI)
qed




subsection \<open>Search for the encoding and the delimiter\<close>

lemma find_append': "find P (xs @ ys) = (case find P xs of None \<Rightarrow> find P ys | Some x \<Rightarrow> Some x)"
  by (induction xs) auto

lemma try_seps_find:
  "try_seps rc p enc ss =
     (case find (\<lambda>a. multicolumn (rc p (snd a) (fst a))) (map (Pair enc) ss) of
        None \<Rightarrow> None | Some a \<Rightarrow> rc p (snd a) (fst a))"
  by (induction ss) (auto simp: multicolumn_def split: option.splits)

lemma try_seps_None:
  "try_seps rc p enc ss = None \<longleftrightarrow> find (\<lambda>a. multicolumn (rc p (snd a) (fst a))) (map (Pair enc) ss) = None"
  by (induction ss) (auto simp: multicolumn_def split: option.splits)

lemma try_encodings_find:
  "try_encodings rc p encs =
     (case find (\<lambda>a. multicolumn (rc p (snd a) (fst a))) (List.product encs seps) of
        None \<Rightarrow> None | Some a \<Rightarrow> rc p (snd a) (fst a))"
proof (induction encs)
  case Nil
  then show ?case by simp
next
  case (Cons enc encs)
  show ?case
  proof (cases "try_seps rc p enc seps")
    case None
    then have "find (\<lambda>a. multicolumn (rc p (snd a) (fst a))) (map (Pair enc) seps) = None"
      by (simp only: try_seps_None)
    with None Cons show ?thesis by (simp add: find_append')
  next
    case (Some df)
    then obtain a where a: "find (\<lambda>a. multicolumn (rc p (snd a) (fst a))) (map (Pair enc) seps) = Some a"
      using try_seps_None [of rc p enc seps] by fastforce
    with Some have "rc p (snd a) (fst a) = Some df" by (simp add: try_seps_find)
    with Some a show ?thesis by (simp add: find_append')
  qed
qed

lemma first_multicolumn_props:
  "(first_multicolumn rc p = None \<longleftrightarrow> (\<forall>a \<in> set attempts. \<not> multicolumn (rc p (snd a) (fst a))))"
  "first_multicolumn rc p = Some df \<Longrightarrow> 1 < length (columns df)"
proof -
  let ?P = "\<lambda>a. multicolumn (rc p (snd a) (fst a))"
  show "first_multicolumn rc p = None \<longleftrightarrow> (\<forall>a \<in> set attempts. \<not> ?P a)"
  proof (cases "find ?P attempts")
    case None
    then have "first_multicolumn rc p = None" by (simp add: first_multicolumn_def)
    moreover from None have "\<forall>a \<in> set attempts. \<not> ?P a" by (simp add: find_None_iff)
    ultimately show ?thesis by simp
  next
    case (Some a)
    then have "?P a" "a \<in> set attempts" by (auto simp: find_Some_iff)
    with Some show ?thesis by (auto simp: first_multicolumn_def multicolumn_def split: option.splits)
  qed
  assume "first_multicolumn rc p = Some df"
  then obtain a where "find ?P attempts = Some a" "rc p (snd a) (fst a) = Some df"
    by (auto simp: first_multicolumn_def split: option.splits)
  then show "1 < length (columns df)"
    by (auto simp: find_Some_iff multicolumn_def)
qed

text \<open>
  C2.  For a file that is not a spreadsheet, \<open>_try_read_table\<close> returns the parse of the
  first pair of an encoding and a delimiter, in the priority order, whose parse succeeds
  with more than one column.  A parse with one column never ends the search, so a table
  returned has more than one column, and the file is unreadable exactly when no pair gives
  a parse with more than one column.
\<close>

theorem first_multicolumn_parse_is_returned:
  assumes "lower (suffix (p_name p)) \<notin> {''.xls'', ''.xlsx''}"
  shows "try_read_table read_excel read_csv p = first_multicolumn read_csv p
    \<and> (try_read_table read_excel read_csv p = None \<longleftrightarrow>
         (\<forall>a \<in> set attempts. \<not> multicolumn (read_csv p (snd a) (fst a))))
    \<and> (\<forall>df. try_read_table read_excel read_csv p = Some df \<longrightarrow> 1 < length (columns df))"
proof -
  have eq: "try_read_table read_excel read_csv p = first_multicolumn read_csv p"
    using assms by (simp add: try_read_table_def first_multicolumn_def attempts_def try_encodings_find)
  show ?thesis
    unfolding eq using first_multicolumn_props [of read_csv p] by blast
qed

text \<open>
  C2, the example: the text \<open>A;B\<close>, \<open>1;2\<close> parses with one column when split at the comma
  and is returned with the two columns of the split at the semicolon.  A file delimited by
  tabs parses with one column at the semicolon and at the comma, and is returned split at
  the tab.
\<close>

theorem first_multicolumn_parse_is_returned_witness:
  "lower (suffix (p_name ex_semicolon)) \<notin> {''.xls'', ''.xlsx''}
   \<and> read_csv_plain ex_semicolon (CHR '','') utf_8 =
       Some \<lparr>columns = [''A;B''], cells = [[Some ''1;2'']]\<rparr>
   \<and> try_read_table (\<lambda>p. None) read_csv_plain ex_semicolon =
       Some \<lparr>columns = [''A'', ''B''], cells = [[Some ''1'', Some ''2'']]\<rparr>
   \<and> first_multicolumn read_csv_plain ex_semicolon =
       Some \<lparr>columns = [''A'', ''B''], cells = [[Some ''1'', Some ''2'']]\<rparr>
   \<and> \<not> multicolumn (read_csv_plain ex_tab (CHR '';'') utf_8)
   \<and> \<not> multicolumn (read_csv_plain ex_tab (CHR '','') utf_8)
   \<and> try_read_table (\<lambda>p. None) read_csv_plain ex_tab =
       Some \<lparr>columns = [''A'', ''B''], cells = [[Some ''1'', Some ''2'']]\<rparr>"
proof -
  have text_file: "lower (suffix (p_name ex_semicolon)) \<notin> {''.xls'', ''.xlsx''}"
    by code_simp
  have comma: "read_csv_plain ex_semicolon (CHR '','') utf_8 =
       Some \<lparr>columns = [''A;B''], cells = [[Some ''1;2'']]\<rparr>"
    by code_simp
  have run: "try_read_table (\<lambda>p. None) read_csv_plain ex_semicolon =
       Some \<lparr>columns = [''A'', ''B''], cells = [[Some ''1'', Some ''2'']]\<rparr>"
    by code_simp
  have tab: "\<not> multicolumn (read_csv_plain ex_tab (CHR '';'') utf_8)"
    "\<not> multicolumn (read_csv_plain ex_tab (CHR '','') utf_8)"
    "try_read_table (\<lambda>p. None) read_csv_plain ex_tab =
       Some \<lparr>columns = [''A'', ''B''], cells = [[Some ''1'', Some ''2'']]\<rparr>"
    by code_simp+
  from first_multicolumn_parse_is_returned [OF text_file, of "\<lambda>p. None" read_csv_plain] run
  have "first_multicolumn read_csv_plain ex_semicolon =
       Some \<lparr>columns = [''A'', ''B''], cells = [[Some ''1'', Some ''2'']]\<rparr>"
    by simp
  with text_file comma run tab show ?thesis by (intro conjI)
qed

subsection \<open>Running the walk again\<close>

lemma sort_key_perm_eq:
  fixes f :: "'a \<Rightarrow> 'k::linorder"
  assumes "mset xs = mset ys" and "distinct (map f ys)"
  shows "sort_key f xs = sort_key f ys"
proof -
  have sets: "set xs = set ys" using assms(1) by (metis set_mset_mset)
  have "mset (map f xs) = mset (map f ys)" using assms(1) by simp
  then have dx: "distinct (map f xs)" using assms(2) by (metis mset_eq_imp_distinct_iff)
  have "sorted (map f (sort_key f xs))" "sorted (map f (sort_key f ys))" by simp_all
  moreover have "distinct (map f (sort_key f xs))" "distinct (map f (sort_key f ys))"
    using dx assms(2) by (simp_all add: distinct_map)
  moreover have "set (map f (sort_key f xs)) = set (map f (sort_key f ys))" using sets by simp
  ultimately have "map f (sort_key f xs) = map f (sort_key f ys)"
    by (metis sorted_distinct_set_unique)
  moreover have "inj_on f (set (sort_key f xs) \<union> set (sort_key f ys))"
    using assms(2) sets by (simp add: distinct_map)
  ultimately show ?thesis by (rule map_inj_on)
qed

lemma header_once_append:
  assumes "header_once st"
  shows "header_once \<lparr> primeira_escrita = False,
           csv_final = to_csv_append dfn (primeira_escrita st) (csv_final st) \<rparr>"
proof (cases "csv_final st")
  case None
  with assms show ?thesis by (auto simp: header_once_def to_csv_append_def)
next
  case (Some ls)
  with assms show ?thesis
    by (cases ls) (auto simp: header_once_def to_csv_append_def)
qed

lemma header_once_process_file:
  "header_once st \<Longrightarrow> header_once (process_file e ano trimestre st p)"
  by (auto simp: process_file_def header_once_append split: option.splits)

lemma header_once_files:
  "header_once st \<Longrightarrow> header_once (foldl (process_file e ano trimestre) st files)"
  by (induction files arbitrary: st) (simp_all add: header_once_process_file)

lemma header_once_process_zip: "header_once st \<Longrightarrow> header_once (process_zip e st z)"
  by (auto simp: process_zip_def Let_def header_once_files split: option.splits)

lemma header_once_zips: "header_once st \<Longrightarrow> header_once (foldl (process_zip e) st zs)"
  by (induction zs arbitrary: st) (simp_all add: header_once_process_zip)

lemma header_once_fresh: "header_once \<lparr> primeira_escrita = True, csv_final = None \<rparr>"
  by (simp add: header_once_def)

lemma processar_arquivos_no_zip: "processar_arquivos e [] prior = prior"
  by (simp add: processar_arquivos_def)

lemma processar_arquivos_fresh:
  "listing \<noteq> [] \<Longrightarrow> processar_arquivos e listing prior = processar_arquivos e listing None"
proof -
  assume "listing \<noteq> []"
  then have "sort_key zip_name listing \<noteq> []" by (metis length_sort length_0_conv)
  then show ?thesis by (simp add: processar_arquivos_def Let_def)
qed

lemma processar_arquivos_perm:
  assumes "mset listing' = mset listing" and "distinct (map zip_name listing)"
  shows "processar_arquivos e listing' prior = processar_arquivos e listing prior"
  using sort_key_perm_eq [OF assms] by (simp add: processar_arquivos_def)

text \<open>
  C8.  A second run over the same set of archives, in whatever order the directory lists
  them, leaves the consolidated file as the first run wrote it.  With at least one archive
  the outcome of a run does not depend on the file it finds, which is removed first; the
  archives are processed in the order of their names; and a file written by the run has
  the header as its first line and nowhere else.  Without any archive the run returns
  before the removal and the file stays as it is.
\<close>

theorem second_run_is_identity:
  assumes "mset listing' = mset listing" and "distinct (map zip_name listing)"
  shows "processar_arquivos e listing' (processar_arquivos e listing prior) = processar_arquivos e listing prior
    \<and> (listing \<noteq> [] \<longrightarrow> processar_arquivos e listing prior = processar_arquivos e listing None)
    \<and> processar_arquivos e listing prior = processar_arquivos e (sort_key zip_name listing) prior
    \<and> (\<forall>ls. listing \<noteq> [] \<and> processar_arquivos e listing prior = Some ls \<longrightarrow>
          ls \<noteq> [] \<and> hd ls = Header \<and> Header \<notin> set (tl ls))"
proof -
  let ?out = "processar_arquivos e listing prior"
  have fresh: "listing \<noteq> [] \<longrightarrow> ?out = processar_arquivos e listing None"
    using processar_arquivos_fresh by blast
  have "processar_arquivos e listing' ?out = processar_arquivos e listing ?out"
    using assms by (rule processar_arquivos_perm)
  also have "\<dots> = ?out"
  proof (cases "listing = []")
    case True
    then show ?thesis by (simp add: processar_arquivos_no_zip)
  next
    case False
    then show ?thesis
      using processar_arquivos_fresh [of listing e ?out] processar_arquivos_fresh [of listing e prior]
      by simp
  qed
  finally have idem: "processar_arquivos e listing' ?out = ?out" .
  have sorted: "?out = processar_arquivos e (sort_key zip_name listing) prior"
    by (simp add: processar_arquivos_def sort_key_id_if_sorted)
  have hdr: "\<forall>ls. listing \<noteq> [] \<and> ?out = Some ls \<longrightarrow> ls \<noteq> [] \<and> hd ls = Header \<and> Header \<notin> set (tl ls)"
  proof (intro allI impI)
    fix ls assume a: "listing \<noteq> [] \<and> ?out = Some ls"
    then have ne: "sort_key zip_name listing \<noteq> []" by (metis length_sort length_0_conv)
    let ?st = "foldl (process_zip e) \<lparr> primeira_escrita = True, csv_final = None \<rparr> (sort_key zip_name listing)"
    have "header_once ?st" by (rule header_once_zips) (rule header_once_fresh)
    moreover have "csv_final ?st = Some ls" using a ne by (simp add: processar_arquivos_def Let_def)
    ultimately show "ls \<noteq> [] \<and> hd ls = Header \<and> Header \<notin> set (tl ls)"
      by (simp add: header_once_def)
  qed
  from idem fresh sorted hdr show ?thesis by (intro conjI)
qed

theorem second_run_is_identity_witness:
  "mset [ex_zip_1T, ex_zip_2T] = mset [ex_zip_2T, ex_zip_1T]
   \<and> distinct (map zip_name [ex_zip_2T, ex_zip_1T])
   \<and> processar_arquivos ex_env [ex_zip_2T, ex_zip_1T]
        (Some [Header, Line \<lparr>k_RegistroANS = Some ''999'', k_Trimestre = ''4'', k_Ano = ''2024'', k_ValorDespesas = 1\<rparr>]) =
       Some [Header,
         Line \<lparr>k_RegistroANS = Some ''111'', k_Trimestre = ''1'', k_Ano = ''2025'', k_ValorDespesas = 10\<rparr>,
         Line \<lparr>k_RegistroANS = Some ''222'', k_Trimestre = ''2'', k_Ano = ''2025'', k_ValorDespesas = 20\<rparr>]
   \<and> processar_arquivos ex_env [ex_zip_1T, ex_zip_2T]
        (Some [Header,
         Line \<lparr>k_RegistroANS = Some ''111'', k_Trimestre = ''1'', k_Ano = ''2025'', k_ValorDespesas = 10\<rparr>,
         Line \<lparr>k_RegistroANS = Some ''222'', k_Trimestre = ''2'', k_Ano = ''2025'', k_ValorDespesas = 20\<rparr>]) =
       Some [Header,
         Line \<lparr>k_RegistroANS = Some ''111'', k_Trimestre = ''1'', k_Ano = ''2025'', k_ValorDespesas = 10\<rparr>,
         Line \<lparr>k_RegistroANS = Some ''222'', k_Trimestre = ''2'', k_Ano = ''2025'', k_ValorDespesas = 20\<rparr>]"
proof -
  let ?out = "Some [Header,
         Line \<lparr>k_RegistroANS = Some ''111'', k_Trimestre = ''1'', k_Ano = ''2025'', k_ValorDespesas = 10\<rparr>,
         Line \<lparr>k_RegistroANS = Some ''222'', k_Trimestre = ''2'', k_Ano = ''2025'', k_ValorDespesas = 20\<rparr>]"
  have perm: "mset [ex_zip_1T, ex_zip_2T] = mset [ex_zip_2T, ex_zip_1T]"
    by simp
  have names: "distinct (map zip_name [ex_zip_2T, ex_zip_1T])"
    by code_simp
  have run: "processar_arquivos ex_env [ex_zip_2T, ex_zip_1T]
        (Some [Header, Line \<lparr>k_RegistroANS = Some ''999'', k_Trimestre = ''4'', k_Ano = ''2024'', k_ValorDespesas = 1\<rparr>]) = ?out"
    by code_simp
  from second_run_is_identity [OF perm names, of ex_env
      "Some [Header, Line \<lparr>k_RegistroANS = Some ''999'', k_Trimestre = ''4'', k_Ano = ''2024'', k_ValorDespesas = 1\<rparr>]"]
  have "processar_arquivos ex_env [ex_zip_1T, ex_zip_2T]
          (processar_arquivos ex_env [ex_zip_2T, ex_zip_1T]
            (Some [Header, Line \<lparr>k_RegistroANS = Some ''999'', k_Trimestre = ''4'', k_Ano = ''2024'', k_ValorDespesas = 1\<rparr>])) =
        processar_arquivos ex_env [ex_zip_2T, ex_zip_1T]
            (Some [Header, Line \<lparr>k_RegistroANS = Some ''999'', k_Trimestre = ''4'', k_Ano = ''2024'', k_ValorDespesas = 1\<rparr>])"
    by (rule conjunct1)
  then have "processar_arquivos ex_env [ex_zip_1T, ex_zip_2T] ?out = ?out"
    by (simp only: run)
  with perm names run show ?thesis by (intro conjI)
qed

subsection \<open>Enrichment\<close>







end
